theory Spec2Isabelle
  imports Main "HOL-Library.AList"
begin

section \<open>Data model\<close>

text \<open>
  A Python \<open>str\<close> is a sequence of Unicode code points, so it is modelled as a list of
  naturals; \<open>ascii\<close> writes an ASCII literal.  A \<open>Document\<close> carries its text and its
  metadata dictionary; the dictionary is an association list in insertion order, a value
  standing for the text that Python's \<open>str()\<close> gives for it (the only use the code makes
  of a metadata value is to format it into an id).
\<close>

type_synonym pystr = "nat list"

definition ascii :: "string \<Rightarrow> pystr" where
  "ascii s = map of_char s"

record document =
  page_content :: pystr
  metadata :: "(pystr \<times> pystr) list"

text \<open>
  The FAISS object behind \<open>self.vector_store\<close> is outside the repository.  It is modelled
  by what the code relies on: the stored entries, in index order, each an id of
  \<open>index_to_docstore_id\<close> with the document the docstore holds for it.
\<close>

type_synonym entry = "pystr \<times> document"

text \<open>
  The directory \<open>FAISS_INDEX_PATH\<close>: missing, empty, holding the files that \<open>save_local\<close>
  wrote for some entries, or holding something that \<open>load_local\<close> cannot read.
\<close>

datatype snapshot_dir =
  DirMissing
  | DirEmpty
  | DirSnapshot "entry list"
  | DirGarbage

datatype loader_class = PyPDFLoader | Docx2txtLoader | TextLoader

text \<open>Every call that leaves the repository's code is logged, in order.\<close>

datatype event =
  LoadLocal
  | FromTexts "pystr list"
  | FromDocuments "document list" "pystr list"
  | AddDocuments "document list" "pystr list"
  | EngineDelete "pystr list"
  | SaveLocal
  | LoaderLoad loader_class pystr
  | WriteUpload pystr

datatype error =
  CountMismatch nat nat
  | RangeStepZero
  | UnsupportedFormat pystr
  | LoadFailure
  | CallRaised event
  | NoVectorStore
  | NoUploadFile

text \<open>
  The environment.  \<open>raises\<close> decides, from the log of calls up to and including the one
  being made, whether that call raises; it is an arbitrary function of the history, so
  every pattern of engine, embedding and upload failures is covered.  A call of the engine that
  raises is taken to leave the engine's state and the snapshot directory as they were.
  \<open>uuid4 k\<close> is the text of the \<open>k\<close>-th UUID that \<open>uuid.uuid4()\<close> hands out.
  \<open>run_loader\<close> is what the chosen LangChain loader reads (\<open>None\<close> when it raises),
  \<open>split_documents\<close> the configured text splitter, \<open>path_suffix_lower\<close> and \<open>path_name\<close>
  pathlib's \<open>Path(p).suffix.lower()\<close> and \<open>Path(p).name\<close>, and \<open>documents_dir_join name\<close> the
  text of \<open>Config.DOCUMENTS_DIR / name\<close>.
\<close>

record env =
  raises :: "event list \<Rightarrow> bool"
  uuid4 :: "nat \<Rightarrow> pystr"
  run_loader :: "event list \<Rightarrow> loader_class \<Rightarrow> pystr \<Rightarrow> document list option"
  split_documents :: "document list \<Rightarrow> document list"
  path_suffix_lower :: "pystr \<Rightarrow> pystr"
  path_name :: "pystr \<Rightarrow> pystr"
  documents_dir_join :: "pystr \<Rightarrow> pystr"

text \<open>
  The state the operations share: the \<open>vector_store\<close> attribute of the
  \<open>FAISSVectorStore\<close> singleton, the snapshot directory, the text of the file
  \<open>PROCESSED_DOCS_RECORD\<close> (\<open>None\<close> while the file does not exist), the log of external
  calls and the number of UUIDs drawn so far.
\<close>

record state =
  vector_store :: "entry list option"
  disk :: snapshot_dir
  ledger_file :: "pystr option"
  trace :: "event list"
  uuid_count :: nat

section \<open>The engine's calls\<close>

definition call :: "env \<Rightarrow> state \<Rightarrow> event \<Rightarrow> bool \<times> state" where
  "call e st ev =
     (let st1 = st\<lparr>trace := trace st @ [ev]\<rparr> in (raises e (trace st1), st1))"

definition save_local :: "env \<Rightarrow> state \<Rightarrow> entry list \<Rightarrow> error option \<times> state" where
  "save_local e st es =
     (case call e st SaveLocal of
        (True, st1) \<Rightarrow> (Some (CallRaised SaveLocal), st1)
      | (False, st1) \<Rightarrow> (None, st1\<lparr>disk := DirSnapshot es\<rparr>))"

definition engine_delete :: "env \<Rightarrow> state \<Rightarrow> pystr list \<Rightarrow> error option \<times> state" where
  "engine_delete e st ids =
     (case vector_store st of
        None \<Rightarrow> (Some NoVectorStore, st)
      | Some es \<Rightarrow>
          (case call e st (EngineDelete ids) of
             (True, st1) \<Rightarrow> (Some (CallRaised (EngineDelete ids)), st1)
           | (False, st1) \<Rightarrow>
               (None, st1\<lparr>vector_store := Some (filter (\<lambda>x. fst x \<notin> set ids) es)\<rparr>)))"

definition engine_insert ::
  "env \<Rightarrow> state \<Rightarrow> document list \<Rightarrow> pystr list \<Rightarrow> error option \<times> state" where
  "engine_insert e st batch batch_ids =
     (case vector_store st of
        None \<Rightarrow>
          (case call e st (FromDocuments batch batch_ids) of
             (True, st1) \<Rightarrow> (Some (CallRaised (FromDocuments batch batch_ids)), st1)
           | (False, st1) \<Rightarrow> (None, st1\<lparr>vector_store := Some (zip batch_ids batch)\<rparr>))
      | Some es \<Rightarrow>
          (case call e st (AddDocuments batch batch_ids) of
             (True, st1) \<Rightarrow> (Some (CallRaised (AddDocuments batch batch_ids)), st1)
           | (False, st1) \<Rightarrow>
               (None, st1\<lparr>vector_store := Some (es @ zip batch_ids batch)\<rparr>)))"

section \<open>document_loader.py: batching\<close>

text \<open>
  \<open>range(0, n, step)\<close> for a positive step, and the slice \<open>xs[i:i+n]\<close>.
  \<open>batch_process_documents\<close> and the comprehension that cuts the ids both run over them.
  A step of zero makes \<open>range\<close> raise; a negative step gives the empty range.
\<close>

definition range_from_zero :: "nat \<Rightarrow> nat \<Rightarrow> nat list" where
  "range_from_zero n step = map (\<lambda>k. k * step) [0..<(n + step - 1) div step]"

definition slice :: "'a list \<Rightarrow> nat \<Rightarrow> nat \<Rightarrow> 'a list" where
  "slice xs i n = take n (drop i xs)"

definition batch_process_documents :: "'a list \<Rightarrow> int \<Rightarrow> error + 'a list list" where
  "batch_process_documents documents batch_size =
     (if batch_size = 0 then Inl RangeStepZero
      else if batch_size < 0 then Inr []
      else Inr (map (\<lambda>i. slice documents i (nat batch_size))
                  (range_from_zero (length documents) (nat batch_size))))"

section \<open>faiss_store.py\<close>

definition underscore :: nat where
  "underscore = 95"

definition doc_source :: "document \<Rightarrow> pystr" where
  "doc_source doc =
     (case map_of (metadata doc) (ascii ''source'') of None \<Rightarrow> [] | Some s \<Rightarrow> s)"

text \<open>The loop of lines 102-106: one UUID is drawn for each document, in order.\<close>

fun generate_ids :: "env \<Rightarrow> nat \<Rightarrow> document list \<Rightarrow> pystr list" where
  "generate_ids e k [] = []"
| "generate_ids e k (doc # docs) =
     (doc_source doc @ [underscore] @ uuid4 e k) # generate_ids e (Suc k) docs"

text \<open>
  \<open>add_documents\<close>.  The loop over the zipped batches stops at the first engine call that
  raises, the exception leaving \<open>add_documents\<close>.  The test \<open>if self.vector_store\<close> after
  the loop asks whether the attribute holds a FAISS object, which counts as true.  A batch
  size of zero makes \<open>range\<close> raise in \<open>batch_process_documents\<close>; a negative one gives
  no batches, so nothing is inserted and the index is saved as it is.
\<close>

fun insert_batches ::
  "env \<Rightarrow> state \<Rightarrow> (document list \<times> pystr list) list \<Rightarrow> error option \<times> state" where
  "insert_batches e st [] = (None, st)"
| "insert_batches e st ((batch, batch_ids) # rest) =
     (case engine_insert e st batch batch_ids of
        (Some err, st1) \<Rightarrow> (Some err, st1)
      | (None, st1) \<Rightarrow> insert_batches e st1 rest)"

definition add_documents ::
  "env \<Rightarrow> state \<Rightarrow> document list \<Rightarrow> int \<Rightarrow> pystr list option \<Rightarrow> (error + bool) \<times> state" where
  "add_documents e st documents batch_size ids_opt =
     (if documents = [] then (Inr False, st)
      else
        let (ids, st0) =
              (case ids_opt of
                 None \<Rightarrow> (generate_ids e (uuid_count st) documents,
                           st\<lparr>uuid_count := uuid_count st + length documents\<rparr>)
               | Some l \<Rightarrow> (l, st))
        in if length documents \<noteq> length ids
           then (Inl (CountMismatch (length documents) (length ids)), st0)
           else
             (case (batch_process_documents documents batch_size,
                    batch_process_documents ids batch_size) of
                (Inr batches, Inr id_batches) \<Rightarrow>
                  (case insert_batches e st0 (zip batches id_batches) of
                     (Some err, st1) \<Rightarrow> (Inl err, st1)
                   | (None, st1) \<Rightarrow>
                       (case vector_store st1 of
                          None \<Rightarrow> (Inr False, st1)
                        | Some es \<Rightarrow>
                            (case save_local e st1 es of
                               (Some err, st2) \<Rightarrow> (Inl err, st2)
                             | (None, st2) \<Rightarrow> (Inr True, st2))))
              | (Inl err, _) \<Rightarrow> (Inl err, st0)
              | (_, Inl err) \<Rightarrow> (Inl err, st0)))"

text \<open>\<open>save\<close> with the default path, as \<open>delete\<close> and \<open>delete_by_source\<close> call it.\<close>

definition save :: "env \<Rightarrow> state \<Rightarrow> error option \<times> state" where
  "save e st =
     (case vector_store st of
        None \<Rightarrow> (Some NoVectorStore, st)
      | Some es \<Rightarrow> save_local e st es)"

text \<open>
  \<open>delete\<close>: the \<open>try\<close> block holds the engine's delete and the save; whatever either
  raises ends in \<open>return False\<close>.
\<close>

definition delete :: "env \<Rightarrow> state \<Rightarrow> pystr list \<Rightarrow> bool \<times> state" where
  "delete e st ids =
     (if ids = [] then (False, st)
      else
        (case engine_delete e st ids of
           (Some err, st1) \<Rightarrow> (False, st1)
         | (None, st1) \<Rightarrow>
             (case save e st1 of
                (Some err, st2) \<Rightarrow> (False, st2)
              | (None, st2) \<Rightarrow> (True, st2))))"




text \<open>
  \<open>_load_or_create_vector_store\<close>.  \<open>load_local\<close> returns the entries of a readable
  snapshot and raises on anything else, or when the environment says so.  \<open>from_texts\<close>
  embeds the texts and builds a new index, the engine drawing one UUID per text as its
  id.  The placeholder text is the five code points of the literal in the source.
\<close>

definition placeholder_text :: pystr where
  "placeholder_text = [21021, 22987, 21270, 25991, 26723]"

definition load_local :: "env \<Rightarrow> state \<Rightarrow> entry list option \<times> state" where
  "load_local e st =
     (case call e st LoadLocal of
        (True, st1) \<Rightarrow> (None, st1)
      | (False, st1) \<Rightarrow>
          (case disk st of
             DirSnapshot es \<Rightarrow> (Some es, st1)
           | _ \<Rightarrow> (None, st1)))"

definition from_texts :: "env \<Rightarrow> state \<Rightarrow> pystr list \<Rightarrow> (error + entry list) \<times> state" where
  "from_texts e st texts =
     (case call e st (FromTexts texts) of
        (True, st1) \<Rightarrow> (Inl (CallRaised (FromTexts texts)), st1)
      | (False, st1) \<Rightarrow>
          (Inr (zip (map (uuid4 e) [uuid_count st1..<uuid_count st1 + length texts])
                  (map (\<lambda>t. \<lparr>page_content = t, metadata = []\<rparr>) texts)),
           st1\<lparr>uuid_count := uuid_count st1 + length texts\<rparr>))"

definition load_or_create_vector_store :: "env \<Rightarrow> state \<Rightarrow> (error + entry list) \<times> state" where
  "load_or_create_vector_store e st =
     (let (loaded, st1) =
            (if disk st \<noteq> DirMissing \<and> disk st \<noteq> DirEmpty then load_local e st
             else (None, st))
      in case loaded of
           Some es \<Rightarrow> (Inr es, st1)
         | None \<Rightarrow>
             (case from_texts e st1 [placeholder_text] of
                (Inl err, st2) \<Rightarrow> (Inl err, st2)
              | (Inr es, st2) \<Rightarrow>
                  (case save_local e st2 es of
                     (Some err, st3) \<Rightarrow> (Inl err, st3)
                   | (None, st3) \<Rightarrow> (Inr es, st3))))"

section \<open>document_loader.py: loading and the ledger\<close>












section \<open>faiss_conversational_chain.py\<close>


section \<open>Notions the properties are stated with\<close>


text \<open>
  For batched insertion.  \<open>ids_used\<close> are the ids the call works
  with (the caller's, or the generated ones) and \<open>after_ids\<close> is the state once they are
  chosen.  \<open>paired_batches\<close> is the \<open>k\<close>-th batch of documents with the \<open>k\<close>-th batch of
  ids, each the slice \<open>[k * n : k * n + n]\<close>; \<open>add_event\<close> is the engine call that inserts
  a batch into an existing index and \<open>batch_entries\<close> the entries it adds.
  \<open>first_raise e tr evs\<close> is the position of the first call of \<open>evs\<close>, made in order
  after the log \<open>tr\<close>, that raises in the environment \<open>e\<close>, if there is one.
\<close>

definition ids_used :: "env \<Rightarrow> state \<Rightarrow> document list \<Rightarrow> pystr list option \<Rightarrow> pystr list" where
  "ids_used e st documents ids_opt =
     (case ids_opt of None \<Rightarrow> generate_ids e (uuid_count st) documents | Some l \<Rightarrow> l)"

definition after_ids :: "state \<Rightarrow> document list \<Rightarrow> pystr list option \<Rightarrow> state" where
  "after_ids st documents ids_opt =
     (case ids_opt of
        None \<Rightarrow> st\<lparr>uuid_count := uuid_count st + length documents\<rparr>
      | Some l \<Rightarrow> st)"

definition paired_batches ::
  "document list \<Rightarrow> pystr list \<Rightarrow> nat \<Rightarrow> (document list \<times> pystr list) list" where
  "paired_batches documents ids n =
     map (\<lambda>k. (slice documents (k * n) n, slice ids (k * n) n))
       [0..<(length documents + n - 1) div n]"

definition add_event :: "document list \<times> pystr list \<Rightarrow> event" where
  "add_event b = AddDocuments (fst b) (snd b)"

definition batch_entries :: "document list \<times> pystr list \<Rightarrow> entry list" where
  "batch_entries b = zip (snd b) (fst b)"

definition first_raise :: "env \<Rightarrow> event list \<Rightarrow> event list \<Rightarrow> nat option" where
  "first_raise e tr evs = find (\<lambda>k. raises e (tr @ take (Suc k) evs)) [0..<length evs]"






section \<open>Concrete environments and states\<close>

text \<open>
  Small inputs on which the operations are run: two chunks of two files, an environment
  in which nothing raises, and environments in which exactly the engine's insert, the
  engine's delete or the snapshot save raises.
\<close>

definition uuid_text :: "nat \<Rightarrow> pystr" where
  "uuid_text k = ascii ''00000000-0000-4000-8000-00000000000'' @ [48 + k mod 10]"

definition doc_a :: document where
  "doc_a = \<lparr>page_content = ascii ''alpha'', metadata = [(ascii ''source'', ascii ''a.txt'')]\<rparr>"

definition doc_b :: document where
  "doc_b = \<lparr>page_content = ascii ''beta'', metadata = [(ascii ''source'', ascii ''b.txt'')]\<rparr>"

definition id_a :: pystr where
  "id_a = ascii ''a.txt_'' @ uuid_text 1"

definition id_b :: pystr where
  "id_b = ascii ''b.txt_'' @ uuid_text 2"

definition placeholder_entry :: entry where
  "placeholder_entry = (uuid_text 0, \<lparr>page_content = placeholder_text, metadata = []\<rparr>)"

definition env_ok :: env where
  "env_ok =
     \<lparr>raises = (\<lambda>tr. False),
      uuid4 = uuid_text,
      run_loader = (\<lambda>tr cls p. Some [\<lparr>page_content = ascii ''alpha'', metadata = []\<rparr>]),
      split_documents = (\<lambda>docs. docs),
      path_suffix_lower = (\<lambda>p. drop (length p - 4) p),
      path_name = (\<lambda>p. drop 5 p),
      documents_dir_join = (\<lambda>name. ascii ''docs/'' @ name)\<rparr>"



definition env_save_raises :: env where
  "env_save_raises = env_ok\<lparr>raises := (\<lambda>tr. last tr = SaveLocal)\<rparr>"

definition st_fresh :: state where
  "st_fresh =
     \<lparr>vector_store = Some [placeholder_entry], disk = DirSnapshot [placeholder_entry],
      ledger_file = None, trace = [], uuid_count = 1\<rparr>"

definition st_two :: state where
  "st_two =
     \<lparr>vector_store = Some [placeholder_entry, (id_a, doc_a), (id_b, doc_b)],
      disk = DirSnapshot [placeholder_entry, (id_a, doc_a), (id_b, doc_b)],
      ledger_file = Some (ascii ''a.txt'' @ [10] @ ascii ''b.txt'' @ [10]),
      trace = [], uuid_count = 3\<rparr>"

definition st_corrupt :: state where
  "st_corrupt =
     \<lparr>vector_store = None, disk = DirGarbage, ledger_file = None, trace = [],
      uuid_count = 0\<rparr>"

definition env_second_insert_raises :: env where
  "env_second_insert_raises =
     env_ok\<lparr>raises := (\<lambda>tr. case last tr of AddDocuments b i \<Rightarrow> length tr = 2 | _ \<Rightarrow> False)\<rparr>"

definition id_a3 :: pystr where
  "id_a3 = ascii ''a.txt_'' @ uuid_text 3"

definition st_saved :: state where
  "st_saved = st_two\<lparr>vector_store := None\<rparr>"

definition st_missing :: state where
  "st_missing = st_corrupt\<lparr>disk := DirMissing\<rparr>"












section \<open>Properties\<close>

text \<open>
  C8.  \<open>add_documents\<close> called with no chunks returns \<open>False\<close>, raises nothing and leaves
  the whole state as it was: the index in memory, the snapshot directory, the ledger
  file, and the log of external calls (so no engine call and no save was made).
\<close>

theorem add_documents_empty_noop:
  "add_documents e st [] batch_size ids_opt = (Inr False, st)"
  by (simp add: add_documents_def)

text \<open>
  C10.  \<open>delete\<close> called with no ids returns \<open>False\<close> and leaves the whole state as it
  was; the log of external calls is part of the state, so neither the engine's delete nor
  a snapshot save was invoked.
\<close>

theorem delete_empty_noop:
  "delete e st [] = (False, st)"
  by (simp add: delete_def)

text \<open>
  C2.  With chunks to insert and a list of ids of another length, \<open>add_documents\<close> raises
  the count mismatch and the whole state is as before: nothing was added to the index,
  no snapshot was written, the ledger is untouched and no external call was made.
\<close>

theorem add_documents_count_mismatch:
  assumes "documents \<noteq> []" and "length ids \<noteq> length documents"
  shows "add_documents e st documents batch_size (Some ids) =
           (Inl (CountMismatch (length documents) (length ids)), st)"
  using assms by (simp add: add_documents_def)

theorem add_documents_count_mismatch_witness:
  "add_documents env_ok st_fresh [doc_a, doc_b, doc_a, doc_b, doc_a] 10 (Some [id_a, id_b, id_a]) =
     (Inl (CountMismatch 5 3), st_fresh)"
  using add_documents_count_mismatch
    [of "[doc_a, doc_b, doc_a, doc_b, doc_a]" "[id_a, id_b, id_a]" env_ok st_fresh 10]
  by simp




subsection \<open>Deleting by source\<close>






subsection \<open>Batched insertion\<close>

lemma engine_insert_ok:
  "vector_store st = Some es \<Longrightarrow> \<not> raises e (trace st @ [add_event b]) \<Longrightarrow>
   engine_insert e st (fst b) (snd b) =
     (None, st\<lparr>trace := trace st @ [add_event b],
                vector_store := Some (es @ batch_entries b)\<rparr>)"
  by (simp add: engine_insert_def call_def add_event_def batch_entries_def)

lemma engine_insert_raises:
  "vector_store st = Some es \<Longrightarrow> raises e (trace st @ [add_event b]) \<Longrightarrow>
   engine_insert e st (fst b) (snd b) =
     (Some (CallRaised (add_event b)), st\<lparr>trace := trace st @ [add_event b]\<rparr>)"
  by (simp add: engine_insert_def call_def add_event_def)

lemma insert_batches_all:
  "vector_store st = Some es \<Longrightarrow>
   \<forall>k<length B. \<not> raises e (trace st @ map add_event (take (Suc k) B)) \<Longrightarrow>
   insert_batches e st B =
     (None, st\<lparr>trace := trace st @ map add_event B,
                vector_store := Some (es @ concat (map batch_entries B))\<rparr>)"
proof (induction B arbitrary: st es)
  case Nil
  then show ?case by simp
next
  case (Cons b B)
  let ?st1 = "st\<lparr>trace := trace st @ [add_event b],
                  vector_store := Some (es @ batch_entries b)\<rparr>"
  from Cons.prems(2) have first: "\<not> raises e (trace st @ [add_event b])"
    by (metis length_Cons list.simps(9) take_Suc_Cons take_0 zero_less_Suc list.map(1))
  have rest: "\<forall>k<length B. \<not> raises e (trace ?st1 @ map add_event (take (Suc k) B))"
  proof (intro allI impI)
    fix k assume "k < length B"
    then have "\<not> raises e (trace st @ map add_event (take (Suc (Suc k)) (b # B)))"
      using Cons.prems(2) by (metis Suc_less_eq length_Cons)
    then show "\<not> raises e (trace ?st1 @ map add_event (take (Suc k) B))"
      by simp
  qed
  have "insert_batches e ?st1 B =
          (None, ?st1\<lparr>trace := trace ?st1 @ map add_event B,
                      vector_store := Some ((es @ batch_entries b) @ concat (map batch_entries B))\<rparr>)"
    by (rule Cons.IH [OF _ rest]) simp
  with engine_insert_ok [OF Cons.prems(1) first] show ?case
    by (cases b) simp
qed

lemma insert_batches_first_failure:
  "vector_store st = Some es \<Longrightarrow> k < length B \<Longrightarrow>
   raises e (trace st @ map add_event (take (Suc k) B)) \<Longrightarrow>
   \<forall>j<k. \<not> raises e (trace st @ map add_event (take (Suc j) B)) \<Longrightarrow>
   insert_batches e st B =
     (Some (CallRaised (add_event (B ! k))),
      st\<lparr>trace := trace st @ map add_event (take (Suc k) B),
          vector_store := Some (es @ concat (map batch_entries (take k B)))\<rparr>)"
proof (induction B arbitrary: st es k)
  case Nil
  then show ?case by simp
next
  case (Cons b B)
  show ?case
  proof (cases k)
    case 0
    with Cons.prems(3) have "raises e (trace st @ [add_event b])" by simp
    from engine_insert_raises [OF Cons.prems(1) this] 0 Cons.prems(1) show ?thesis
      by (cases b) simp
  next
    case (Suc k')
    let ?st1 = "st\<lparr>trace := trace st @ [add_event b],
                    vector_store := Some (es @ batch_entries b)\<rparr>"
    from Cons.prems(4) Suc have first: "\<not> raises e (trace st @ [add_event b])"
      by (metis list.simps(9) take_Suc_Cons take_0 zero_less_Suc list.map(1))
    have k': "k' < length B" using Cons.prems(2) Suc by simp
    have fails: "raises e (trace ?st1 @ map add_event (take (Suc k') B))"
      using Cons.prems(3) Suc by simp
    have before: "\<forall>j<k'. \<not> raises e (trace ?st1 @ map add_event (take (Suc j) B))"
    proof (intro allI impI)
      fix j assume "j < k'"
      then have "\<not> raises e (trace st @ map add_event (take (Suc (Suc j)) (b # B)))"
        using Cons.prems(4) Suc by (metis Suc_less_eq)
      then show "\<not> raises e (trace ?st1 @ map add_event (take (Suc j) B))"
        by simp
    qed
    have "insert_batches e ?st1 B =
            (Some (CallRaised (add_event (B ! k'))),
             ?st1\<lparr>trace := trace ?st1 @ map add_event (take (Suc k') B),
                   vector_store := Some ((es @ batch_entries b) @ concat (map batch_entries (take k' B)))\<rparr>)"
      by (rule Cons.IH [OF _ k' fails before]) simp
    with engine_insert_ok [OF Cons.prems(1) first] Suc show ?thesis
      by (cases b) simp
  qed
qed

lemma concat_slices:
  "concat (map (\<lambda>k. slice xs (k * n) n) [0..<m]) = take (m * n) xs"
proof (induction m)
  case 0
  then show ?case by simp
next
  case (Suc m)
  have "take (m * n) xs @ take n (drop (m * n) xs) = take (m * n + n) xs"
    by (simp add: take_add)
  with Suc show ?case by (simp add: slice_def add.commute)
qed

lemma batches_cover:
  assumes "0 < n"
  shows "length xs \<le> ((length xs + n - 1) div n) * n"
proof -
  have "length xs + n - 1 < ((length xs + n - 1) div n) * n + n"
    using assms by (metis add.commute dividend_less_div_times)
  then show ?thesis using assms by linarith
qed

lemma concat_all_slices:
  "0 < n \<Longrightarrow> concat (map (\<lambda>k. slice xs (k * n) n) [0..<(length xs + n - 1) div n]) = xs"
  using batches_cover [of n xs] by (simp add: concat_slices)

lemma slice_zip:
  "slice (zip xs ys) i n = zip (slice xs i n) (slice ys i n)"
  by (simp add: slice_def take_zip drop_zip)

lemma paired_batches_fst:
  "0 < n \<Longrightarrow> concat (map fst (paired_batches documents ids n)) = documents"
  using concat_all_slices [of n documents]
  by (simp add: paired_batches_def comp_def)

lemma paired_batches_snd:
  "0 < n \<Longrightarrow> length ids = length documents \<Longrightarrow>
   concat (map snd (paired_batches documents ids n)) = ids"
  using concat_all_slices [of n ids]
  by (simp add: paired_batches_def comp_def)

lemma paired_batches_entries:
  "0 < n \<Longrightarrow> length ids = length documents \<Longrightarrow>
   concat (map batch_entries (paired_batches documents ids n)) = zip ids documents"
  using concat_all_slices [of n "zip ids documents"]
  by (simp add: paired_batches_def comp_def batch_entries_def slice_zip)

lemma zip_batches:
  "0 < batch_size \<Longrightarrow> length ids = length documents \<Longrightarrow>
   batch_process_documents documents batch_size = Inr bs \<Longrightarrow>
   batch_process_documents ids batch_size = Inr is \<Longrightarrow>
   zip bs is = paired_batches documents ids (nat batch_size)"
  by (auto simp: batch_process_documents_def range_from_zero_def paired_batches_def
      zip_map_map zip_same_conv_map comp_def  split: if_splits)

lemma full_batch:
  assumes "0 < n" and "Suc k < (len + n - 1) div n"
  shows "k * n + n \<le> len"
proof -
  have "Suc (Suc k) \<le> (len + n - 1) div n" using assms(2) by simp
  then have "Suc (Suc k) * n \<le> ((len + n - 1) div n) * n"
    by (rule mult_le_mono1)
  also have "\<dots> \<le> len + n - 1" by simp
  finally show ?thesis using assms(1) by simp
qed

lemma butlast_upt_zero: "butlast [0..<m] = [0..<m - 1]"
  by (cases m) simp_all

lemma paired_batches_sizes:
  assumes "0 < n" and "length ids = length documents"
  shows "list_all (\<lambda>b. length (fst b) = n \<and> length (snd b) = n)
           (butlast (paired_batches documents ids n))"
proof -
  have "length (slice documents (k * n) n) = n \<and> length (slice ids (k * n) n) = n"
    if "Suc k < (length documents + n - 1) div n" for k
    using full_batch [OF assms(1) that] assms(2) by (simp add: slice_def)
  moreover have "butlast (paired_batches documents ids n) =
      map (\<lambda>k. (slice documents (k * n) n, slice ids (k * n) n))
        [0..<(length documents + n - 1) div n - 1]"
    by (simp add: paired_batches_def butlast_upt_zero flip: map_butlast)
  ultimately show ?thesis
    by (auto simp: list_all_iff)
qed



lemma add_documents_unfold:
  assumes "documents \<noteq> []" and "0 < batch_size"
    and "length (ids_used e st documents ids_opt) = length documents"
  shows "add_documents e st documents batch_size ids_opt =
           (case insert_batches e (after_ids st documents ids_opt)
                   (paired_batches documents (ids_used e st documents ids_opt) (nat batch_size)) of
              (Some err, st1) \<Rightarrow> (Inl err, st1)
            | (None, st1) \<Rightarrow>
                (case vector_store st1 of
                   None \<Rightarrow> (Inr False, st1)
                 | Some es \<Rightarrow>
                     (case save_local e st1 es of
                        (Some err, st2) \<Rightarrow> (Inl err, st2)
                      | (None, st2) \<Rightarrow> (Inr True, st2))))"
proof -
  let ?ids = "ids_used e st documents ids_opt"
  obtain bs "is" where bs: "batch_process_documents documents batch_size = Inr bs"
    and "is": "batch_process_documents ?ids batch_size = Inr is"
    using assms(2) by (simp add: batch_process_documents_def)
  have "zip bs is = paired_batches documents ?ids (nat batch_size)"
    using zip_batches [OF assms(2,3) bs "is"] .
  with bs "is" assms(1,3) show ?thesis
    by (cases ids_opt) (simp_all add: add_documents_def ids_used_def after_ids_def)
qed

lemma first_raise_None:
  "first_raise e tr evs = None \<Longrightarrow> k < length evs \<Longrightarrow> \<not> raises e (tr @ take (Suc k) evs)"
  by (auto simp: first_raise_def find_None_iff)

lemma first_raise_Some:
  "first_raise e tr evs = Some k \<Longrightarrow>
   k < length evs \<and> raises e (tr @ take (Suc k) evs) \<and>
   (\<forall>j<k. \<not> raises e (tr @ take (Suc j) evs))"
  by (auto simp: first_raise_def find_Some_iff)

lemma add_documents_outcome:
  assumes "documents \<noteq> []" and "0 < batch_size"
    and "length ids = length documents"
    and "ids = ids_used e st documents ids_opt"
    and "B = paired_batches documents ids (nat batch_size)"
    and "vector_store st = Some es"
  shows "add_documents e st documents batch_size ids_opt =
     (case first_raise e (trace st) (map add_event B) of
        Some k \<Rightarrow>
          (Inl (CallRaised (add_event (B ! k))),
           (after_ids st documents ids_opt)
             \<lparr>trace := trace st @ map add_event (take (Suc k) B),
              vector_store := Some (es @ concat (map batch_entries (take k B)))\<rparr>)
      | None \<Rightarrow>
          (if raises e (trace st @ map add_event B @ [SaveLocal])
           then (Inl (CallRaised SaveLocal),
                 (after_ids st documents ids_opt)
                   \<lparr>trace := trace st @ map add_event B @ [SaveLocal],
                    vector_store := Some (es @ zip ids documents)\<rparr>)
           else (Inr True,
                 (after_ids st documents ids_opt)
                   \<lparr>trace := trace st @ map add_event B @ [SaveLocal],
                    vector_store := Some (es @ zip ids documents),
                    disk := DirSnapshot (es @ zip ids documents)\<rparr>)))"
proof -
  let ?st0 = "after_ids st documents ids_opt"
  have st0: "vector_store ?st0 = Some es" "trace ?st0 = trace st"
    using assms(6) by (simp_all add: after_ids_def split: option.splits)
  have n: "0 < nat batch_size" using assms(2) by simp
  have len: "length (ids_used e st documents ids_opt) = length documents"
    using assms(3,4) by simp
  have unfold: "add_documents e st documents batch_size ids_opt =
           (case insert_batches e ?st0 B of
              (Some err, st1) \<Rightarrow> (Inl err, st1)
            | (None, st1) \<Rightarrow>
                (case vector_store st1 of
                   None \<Rightarrow> (Inr False, st1)
                 | Some es \<Rightarrow>
                     (case save_local e st1 es of
                        (Some err, st2) \<Rightarrow> (Inl err, st2)
                      | (None, st2) \<Rightarrow> (Inr True, st2))))"
    using add_documents_unfold [OF assms(1,2) len] assms(4,5) by simp
  show ?thesis
  proof (cases "first_raise e (trace st) (map add_event B)")
    case None
    then have "\<forall>k<length B. \<not> raises e (trace ?st0 @ map add_event (take (Suc k) B))"
      using first_raise_None [of e "trace st" "map add_event B"] st0(2)
      by (simp add: take_map)
    from insert_batches_all [OF st0(1) this] None st0(2)
      paired_batches_entries [OF n assms(3)] assms(5)
    show ?thesis
      by (simp add: unfold save_local_def call_def)
  next
    case (Some k)
    from first_raise_Some [OF this] st0(2)
    have k: "k < length B"
      and r: "raises e (trace ?st0 @ map add_event (take (Suc k) B))"
      and b: "\<forall>j<k. \<not> raises e (trace ?st0 @ map add_event (take (Suc j) B))"
      by (simp_all add: take_map)
    from insert_batches_first_failure [OF st0(1) k r b] Some st0(2)
    show ?thesis
      by (simp add: unfold)
  qed
qed

lemma count_add_events: "count_list (map add_event B) SaveLocal = 0"
  by (induction B) (simp_all add: add_event_def)

lemma ledger_after_ids: "ledger_file (after_ids st documents ids_opt) = ledger_file st"
  by (simp add: after_ids_def split: option.splits)

lemma disk_after_ids: "disk (after_ids st documents ids_opt) = disk st"
  by (simp add: after_ids_def split: option.splits)

text \<open>
  C3.  With chunks to insert, a positive batch size, as many ids as chunks and an index in
  memory, let \<open>B\<close> be the batches.  They are consecutive and in order: put together they
  give the chunks and the ids back, and each but the last has the batch size.  The
  engine's additive insert is called on them in order until one raises.
  If none raises, the save is called once, after the last batch; the index in memory is
  the old entries followed by the new ones in order, and, if the save does not raise, the
  call returns \<open>True\<close> and the snapshot directory holds that index.
  If the insert of batch \<open>k\<close> raises, that exception leaves the call: the batches before
  \<open>k\<close> are in the index in memory, no save was called and the snapshot directory is as
  before.  In every case exactly one save is logged when all batches went in and none
  otherwise, and the ledger file is as before.
\<close>

theorem add_documents_batched:
  assumes "documents \<noteq> []" and "0 < batch_size"
    and "length (ids_used e st documents ids_opt) = length documents"
    and "vector_store st = Some es"
  shows "let ids = ids_used e st documents ids_opt;
             B = paired_batches documents ids (nat batch_size);
             st0 = after_ids st documents ids_opt;
             res = add_documents e st documents batch_size ids_opt
         in concat (map fst B) = documents \<and> concat (map snd B) = ids \<and>
            list_all (\<lambda>b. length (fst b) = nat batch_size \<and> length (snd b) = nat batch_size)
              (butlast B) \<and>
            res =
              (case first_raise e (trace st) (map add_event B) of
                 Some k \<Rightarrow>
                   (Inl (CallRaised (add_event (B ! k))),
                    st0\<lparr>trace := trace st @ map add_event (take (Suc k) B),
                        vector_store := Some (es @ concat (map batch_entries (take k B)))\<rparr>)
               | None \<Rightarrow>
                   (if raises e (trace st @ map add_event B @ [SaveLocal])
                    then (Inl (CallRaised SaveLocal),
                          st0\<lparr>trace := trace st @ map add_event B @ [SaveLocal],
                              vector_store := Some (es @ zip ids documents)\<rparr>)
                    else (Inr True,
                          st0\<lparr>trace := trace st @ map add_event B @ [SaveLocal],
                              vector_store := Some (es @ zip ids documents),
                              disk := DirSnapshot (es @ zip ids documents)\<rparr>))) \<and>
            count_list (drop (length (trace st)) (trace (snd res))) SaveLocal =
              (case first_raise e (trace st) (map add_event B) of Some k \<Rightarrow> 0 | None \<Rightarrow> 1) \<and>
            (case first_raise e (trace st) (map add_event B) of
               Some k \<Rightarrow> disk (snd res) = disk st
             | None \<Rightarrow> True) \<and>
            ledger_file (snd res) = ledger_file st"
proof -
  define ids where "ids = ids_used e st documents ids_opt"
  define B where "B = paired_batches documents ids (nat batch_size)"
  have n: "0 < nat batch_size" using assms(2) by simp
  have len: "length ids = length documents" using assms(3) ids_def by simp
  note out = add_documents_outcome [OF assms(1,2) len ids_def B_def assms(4)]
  have 1: "concat (map fst B) = documents"
    unfolding B_def by (rule paired_batches_fst [OF n])
  have 2: "concat (map snd B) = ids"
    unfolding B_def by (rule paired_batches_snd [OF n len])
  have 3: "list_all (\<lambda>b. length (fst b) = nat batch_size \<and> length (snd b) = nat batch_size)
             (butlast B)"
    unfolding B_def by (rule paired_batches_sizes [OF n len])
  have 4: "count_list (drop (length (trace st))
               (trace (snd (add_documents e st documents batch_size ids_opt)))) SaveLocal =
             (case first_raise e (trace st) (map add_event B) of Some k \<Rightarrow> 0 | None \<Rightarrow> 1)"
    unfolding out
    by (simp add: count_add_events split: option.splits)
  have 5: "(case first_raise e (trace st) (map add_event B) of
               Some k \<Rightarrow> disk (snd (add_documents e st documents batch_size ids_opt)) = disk st
             | None \<Rightarrow> True)"
    unfolding out by (simp add: disk_after_ids split: option.splits)
  have 6: "ledger_file (snd (add_documents e st documents batch_size ids_opt)) = ledger_file st"
    unfolding out by (simp add: ledger_after_ids split: option.splits)
  from 1 2 3 4 5 6 out show ?thesis
    unfolding Let_def ids_def [symmetric] B_def [symmetric] by simp
qed

theorem add_documents_batched_witness:
  "add_documents env_ok st_fresh [doc_a, doc_b, doc_a] 2 None =
     (Inr True,
      st_fresh\<lparr>uuid_count := 4,
                trace := [AddDocuments [doc_a, doc_b] [id_a, id_b], AddDocuments [doc_a] [id_a3],
                          SaveLocal],
                vector_store :=
                  Some [placeholder_entry, (id_a, doc_a), (id_b, doc_b), (id_a3, doc_a)],
                disk :=
                  DirSnapshot [placeholder_entry, (id_a, doc_a), (id_b, doc_b), (id_a3, doc_a)]\<rparr>) \<and>
   add_documents env_second_insert_raises st_fresh [doc_a, doc_b, doc_a] 2 None =
     (Inl (CallRaised (AddDocuments [doc_a] [id_a3])),
      st_fresh\<lparr>uuid_count := 4,
                trace := [AddDocuments [doc_a, doc_b] [id_a, id_b], AddDocuments [doc_a] [id_a3]],
                vector_store := Some [placeholder_entry, (id_a, doc_a), (id_b, doc_b)]\<rparr>)"
proof -
  have ids: "ids_used env_ok st_fresh [doc_a, doc_b, doc_a] None = [id_a, id_b, id_a3]"
    "ids_used env_second_insert_raises st_fresh [doc_a, doc_b, doc_a] None = [id_a, id_b, id_a3]"
    by (simp_all add: ids_used_def st_fresh_def env_second_insert_raises_def env_ok_def
        doc_a_def doc_b_def doc_source_def id_a_def id_b_def id_a3_def
        ascii_def underscore_def eval_nat_numeral)
  have B: "paired_batches [doc_a, doc_b, doc_a] [id_a, id_b, id_a3] 2 =
             [([doc_a, doc_b], [id_a, id_b]), ([doc_a], [id_a3])]"
    by (simp add: paired_batches_def slice_def upt_rec)
  have st: "vector_store st_fresh = Some [placeholder_entry]" "trace st_fresh = []"
    by (simp_all add: st_fresh_def)
  have r: "raises env_ok = (\<lambda>tr. False)"
    "raises env_second_insert_raises =
       (\<lambda>tr. case last tr of AddDocuments b i \<Rightarrow> length tr = 2 | _ \<Rightarrow> False)"
    by (simp_all add: env_second_insert_raises_def env_ok_def)
  have fr: "first_raise env_ok []
              [AddDocuments [doc_a, doc_b] [id_a, id_b], AddDocuments [doc_a] [id_a3]] = None"
    "first_raise env_second_insert_raises []
       [AddDocuments [doc_a, doc_b] [id_a, id_b], AddDocuments [doc_a] [id_a3]] = Some 1"
    by (simp_all add: first_raise_def r upt_rec)
  have after: "after_ids st_fresh [doc_a, doc_b, doc_a] None = st_fresh\<lparr>uuid_count := 4\<rparr>"
    by (simp add: after_ids_def st_fresh_def)
  have 1: "add_documents env_ok st_fresh [doc_a, doc_b, doc_a] 2 None =
     (Inr True,
      st_fresh\<lparr>uuid_count := 4,
                trace := [AddDocuments [doc_a, doc_b] [id_a, id_b], AddDocuments [doc_a] [id_a3],
                          SaveLocal],
                vector_store :=
                  Some [placeholder_entry, (id_a, doc_a), (id_b, doc_b), (id_a3, doc_a)],
                disk :=
                  DirSnapshot [placeholder_entry, (id_a, doc_a), (id_b, doc_b), (id_a3, doc_a)]\<rparr>)"
    using add_documents_batched
        [of "[doc_a, doc_b, doc_a]" 2 env_ok st_fresh None "[placeholder_entry]"]
    by (simp add: Let_def ids B st r(1) fr after add_event_def batch_entries_def)
  have 2: "add_documents env_second_insert_raises st_fresh [doc_a, doc_b, doc_a] 2 None =
     (Inl (CallRaised (AddDocuments [doc_a] [id_a3])),
      st_fresh\<lparr>uuid_count := 4,
                trace := [AddDocuments [doc_a, doc_b] [id_a, id_b], AddDocuments [doc_a] [id_a3]],
                vector_store := Some [placeholder_entry, (id_a, doc_a), (id_b, doc_b)]\<rparr>)"
    using add_documents_batched
        [of "[doc_a, doc_b, doc_a]" 2 env_second_insert_raises st_fresh None "[placeholder_entry]"]
    by (simp add: Let_def ids B st fr after add_event_def batch_entries_def)
  from 1 2 show ?thesis by simp
qed

subsection \<open>Opening or creating the index\<close>

text \<open>
  C6, as the code has it.  A directory that holds a readable snapshot is loaded, when the
  load does not raise, and nothing is written.  With no directory, an empty one, an
  unreadable one or a load that raises, a fresh index with the one placeholder entry is
  created and saved to the directory, provided that neither the creation (it embeds the
  placeholder) nor the save raises.  An exception of the load never leaves the function;
  the only exceptions that do are those of creating the fresh index and of saving it.
\<close>

theorem load_or_create_cases:
  "(disk st = DirSnapshot es \<and> \<not> raises e (trace st @ [LoadLocal]) \<longrightarrow>
      load_or_create_vector_store e st = (Inr es, st\<lparr>trace := trace st @ [LoadLocal]\<rparr>)) \<and>
   ((disk st = DirMissing \<or> disk st = DirEmpty) \<and>
    \<not> raises e (trace st @ [FromTexts [placeholder_text]]) \<and>
    \<not> raises e (trace st @ [FromTexts [placeholder_text], SaveLocal]) \<longrightarrow>
      load_or_create_vector_store e st =
        (Inr [(uuid4 e (uuid_count st), \<lparr>page_content = placeholder_text, metadata = []\<rparr>)],
         st\<lparr>trace := trace st @ [FromTexts [placeholder_text], SaveLocal],
             uuid_count := Suc (uuid_count st),
             disk := DirSnapshot
               [(uuid4 e (uuid_count st), \<lparr>page_content = placeholder_text, metadata = []\<rparr>)]\<rparr>)) \<and>
   ((disk st = DirGarbage \<or> disk st = DirSnapshot es \<and> raises e (trace st @ [LoadLocal])) \<and>
    \<not> raises e (trace st @ [LoadLocal, FromTexts [placeholder_text]]) \<and>
    \<not> raises e (trace st @ [LoadLocal, FromTexts [placeholder_text], SaveLocal]) \<longrightarrow>
      load_or_create_vector_store e st =
        (Inr [(uuid4 e (uuid_count st), \<lparr>page_content = placeholder_text, metadata = []\<rparr>)],
         st\<lparr>trace := trace st @ [LoadLocal, FromTexts [placeholder_text], SaveLocal],
             uuid_count := Suc (uuid_count st),
             disk := DirSnapshot
               [(uuid4 e (uuid_count st), \<lparr>page_content = placeholder_text, metadata = []\<rparr>)]\<rparr>)) \<and>
   (\<forall>err. fst (load_or_create_vector_store e st) = Inl err \<longrightarrow>
      err = CallRaised (FromTexts [placeholder_text]) \<or> err = CallRaised SaveLocal)"
  by (cases "disk st")
    (auto simp: load_or_create_vector_store_def load_local_def from_texts_def save_local_def
      call_def Let_def split: prod.splits sum.splits option.splits if_splits bool.splits)

theorem load_or_create_cases_witness:
  "load_or_create_vector_store env_ok st_saved =
     (Inr [placeholder_entry, (id_a, doc_a), (id_b, doc_b)], st_saved\<lparr>trace := [LoadLocal]\<rparr>) \<and>
   load_or_create_vector_store env_ok st_missing =
     (Inr [placeholder_entry],
      st_missing\<lparr>trace := [FromTexts [placeholder_text], SaveLocal], uuid_count := 1,
                  disk := DirSnapshot [placeholder_entry]\<rparr>) \<and>
   load_or_create_vector_store env_ok st_corrupt =
     (Inr [placeholder_entry],
      st_corrupt\<lparr>trace := [LoadLocal, FromTexts [placeholder_text], SaveLocal], uuid_count := 1,
                  disk := DirSnapshot [placeholder_entry]\<rparr>) \<and>
   fst (load_or_create_vector_store env_save_raises st_corrupt) = Inl (CallRaised SaveLocal)"
  using load_or_create_cases [of st_saved "[placeholder_entry, (id_a, doc_a), (id_b, doc_b)]" env_ok]
    load_or_create_cases [of st_missing "[]" env_ok]
    load_or_create_cases [of st_corrupt "[]" env_ok]
    load_or_create_cases [of st_corrupt "[]" env_save_raises]
  apply (simp add: st_saved_def st_missing_def st_corrupt_def st_two_def env_ok_def
      env_save_raises_def placeholder_entry_def)
  apply (simp add: load_or_create_vector_store_def load_local_def from_texts_def save_local_def
      call_def env_ok_def)
  done

text \<open>
  C6, as the claim states it, fails where the directory is unreadable and the save of the
  fresh index raises: the exception leaves the function and the directory is as it was.
\<close>

theorem load_or_create_counterexample:
  "disk st_corrupt = DirGarbage \<and>
   raises env_save_raises (trace st_corrupt @ [LoadLocal, FromTexts [placeholder_text], SaveLocal]) \<and>
   fst (load_or_create_vector_store env_save_raises st_corrupt) = Inl (CallRaised SaveLocal) \<and>
   disk (snd (load_or_create_vector_store env_save_raises st_corrupt)) = DirGarbage"
  by (simp add: load_or_create_vector_store_def load_local_def from_texts_def save_local_def
      call_def st_corrupt_def env_save_raises_def env_ok_def)

subsection \<open>Generated ids\<close>







subsection \<open>The ledger\<close>










































end
